theory Spec2Isabelle
  imports Main
begin

section \<open>The live channel manager of insyd-client (hook useInsydSocket)\<close>

text \<open>
  The hook \<^verbatim>\<open>useInsydSocket\<close> keeps two pieces of React state (\<^verbatim>\<open>status\<close>,
  \<^verbatim>\<open>unread\<close>) and five refs (\<^verbatim>\<open>wsRef\<close>, \<^verbatim>\<open>heartbeatRef\<close>, \<^verbatim>\<open>retryRef\<close>,
  \<^verbatim>\<open>retriesRef\<close>, \<^verbatim>\<open>isConnectingRef\<close>). Its functions are callbacks that the browser
  runs one at a time on the event loop. The embedding is a state record, one state
  transformer for each callback of the source, and a step function that runs the callback
  belonging to an event. Besides the hook's own variables the record holds the part of the
  browser the callbacks act on: the WebSocket objects created so far, the timers created so
  far, the console, and the desktop notifications raised.
\<close>

subsection \<open>Data\<close>

datatype WSStatus = connecting | connected | disconnected | error

record User =
  userId :: string
  name :: string
  email :: string
  createdAt :: string
  updatedAt :: string

text \<open>
  The two values the hook reads from \<^verbatim>\<open>useAuth()\<close>. Every \<^verbatim>\<open>connect\<close> function the hook
  creates captures the values of one render (the dependency list of its
  \<^verbatim>\<open>useCallback\<close> holds both), and so do the socket handlers and the retry callback
  that this \<^verbatim>\<open>connect\<close> creates.
\<close>

record Auth =
  user :: "User option"
  isAuthenticated :: bool

text \<open>\<^verbatim>\<open>user?.userId\<close> is truthy: the user is not null and the id is not the empty string.\<close>

definition has_userId :: "Auth \<Rightarrow> bool" where
  "has_userId a = (case user a of None \<Rightarrow> False | Some u \<Rightarrow> userId u \<noteq> [])"

datatype ReadyState = CONNECTING | OPEN | CLOSING | CLOSED

text \<open>
  Frames written to a socket: the heartbeat's ping (its timestamp is left out) and the
  text \<^verbatim>\<open>JSON.stringify(payload)\<close> of \<^verbatim>\<open>send\<close>.
\<close>

datatype frame_out = Ping | Payload string

text \<open>
  A WebSocket object. \<open>owner\<close> is the render whose \<^verbatim>\<open>connect\<close> created it: the
  handlers \<^verbatim>\<open>onopen\<close>, \<^verbatim>\<open>onmessage\<close>, \<^verbatim>\<open>onclose\<close>, \<^verbatim>\<open>onerror\<close> assigned to it are
  closures over that render's \<^verbatim>\<open>isAuthenticated\<close>, \<^verbatim>\<open>user\<close> and \<^verbatim>\<open>connect\<close>. A socket
  is named by its index in the list of sockets, in the order of creation.
\<close>

record WebSocket =
  readyState :: ReadyState
  owner :: Auth
  sent :: "frame_out list"

text \<open>
  A timer of \<^verbatim>\<open>setInterval\<close> or \<^verbatim>\<open>setTimeout\<close>, named by its index in the list of timers.
  The heartbeat's callback closes over the socket it was started for, the retry's callback
  over the \<^verbatim>\<open>connect\<close> of the render that owns the closed socket.
\<close>

datatype callback = HeartbeatTick nat | RetryConnect Auth

record timer =
  callback :: callback
  delay :: nat
  active :: bool

text \<open>
  The lines the hook writes to the console, one constructor for each call in the source
  (the text is abridged to its fixed part, the values printed after it are left out):
  line 32 \<open>Cleaning_up\<close>, 56 \<open>Sent_message\<close>, 58 \<open>Cannot_send\<close>, 71 \<open>Sending_heartbeat\<close>,
  79 \<open>Cannot_connect\<close>, 84 \<open>Already_connecting\<close>, 89 \<open>Already_connected\<close>,
  99 \<open>Connecting_to_WebSocket\<close>, 109 \<open>Connected_successfully\<close>, 119 \<open>Raw_message\<close>,
  123 \<open>Parsed_message\<close>, 126 \<open>Processing_notification\<close>, 138 \<open>Received_pong\<close>,
  140 \<open>Unknown_message_type\<close>, 143 \<open>Failed_to_parse\<close>, 144 \<open>Raw_data\<close>,
  149 \<open>WebSocket_closed\<close>, 167 \<open>Reconnecting\<close>, 180 \<open>WebSocket_error\<close>,
  186 \<open>Failed_to_create\<close>, 195 \<open>Auth_connecting\<close>, 198 \<open>Auth_cleaning_up\<close>,
  221 \<open>Tab_visible\<close>, 238 \<open>Resetting_unread\<close>.
\<close>

datatype message =
    Cleaning_up | Sent_message | Cannot_send | Sending_heartbeat | Cannot_connect
  | Already_connecting | Already_connected | Connecting_to_WebSocket | Connected_successfully
  | Raw_message | Parsed_message | Processing_notification | Received_pong
  | Unknown_message_type | Failed_to_parse | Raw_data | WebSocket_closed | Reconnecting
  | WebSocket_error | Failed_to_create | Auth_connecting | Auth_cleaning_up | Tab_visible
  | Resetting_unread

text \<open>\<^verbatim>\<open>console.log\<close>, \<^verbatim>\<open>console.warn\<close> and \<^verbatim>\<open>console.error\<close>.\<close>

datatype console_line = Log message | Warn message | Err message

text \<open>
  Values of \<^verbatim>\<open>JSON.parse\<close>. An object is the list of its own properties, each name once,
  with their values. Numbers are kept as integers: the handler only tests them for
  truthiness.
\<close>

datatype json =
    JNull
  | JBool bool
  | JNum int
  | JStr string
  | JArr "json list"
  | JObj "(string \<times> json) list"

text \<open>What \<^verbatim>\<open>JSON.parse(evt.data)\<close> does: it throws a SyntaxError or returns a value.\<close>

datatype JSON_parse = Throws | Returns json

datatype exn = SyntaxError | TypeError

datatype permission = granted | denied | default

text \<open>
  The tag of a desktop notification: \<^verbatim>\<open>msg.data.id || Date.now().toString()\<close>. The
  clock's value is left out.
\<close>

datatype tag = Id json | Now

record Notification =
  title :: json
  body :: json
  tag :: tag
  icon :: string

text \<open>
  A message event as the handler sees it: the outcome of parsing \<^verbatim>\<open>evt.data\<close>, the value
  of \<^verbatim>\<open>Notification.permission\<close> at that moment, and whether the browser refuses
  \<^verbatim>\<open>new Notification(...)\<close> with an exception.
\<close>

record MessageEvent =
  parsed :: JSON_parse
  permission :: permission
  notification_throws :: bool

text \<open>
  The state. \<open>unread\<close> is a JavaScript number that starts at 0 and is only ever incremented
  or set to 0, so a natural number. A ref that holds a socket or a timer holds its index.
\<close>

record hook_state =
  status :: WSStatus
  unread :: nat
  wsRef :: "nat option"
  heartbeatRef :: "nat option"
  retryRef :: "nat option"
  retriesRef :: nat
  isConnectingRef :: bool
  sockets :: "WebSocket list"
  timers :: "timer list"
  console :: "console_line list"
  alerts :: "Notification list"

text \<open>The state of a freshly mounted hook, before any effect has run.\<close>

definition init :: hook_state where
  "init = \<lparr>status = disconnected, unread = 0, wsRef = None, heartbeatRef = None,
            retryRef = None, retriesRef = 0, isConnectingRef = False,
            sockets = [], timers = [], console = [], alerts = []\<rparr>"

subsection \<open>The browser: console, sockets, timers\<close>

definition console_log :: "message \<Rightarrow> hook_state \<Rightarrow> hook_state" where
  "console_log m s = s\<lparr>console := console s @ [Log m]\<rparr>"

definition console_warn :: "message \<Rightarrow> hook_state \<Rightarrow> hook_state" where
  "console_warn m s = s\<lparr>console := console s @ [Warn m]\<rparr>"

definition console_error :: "message \<Rightarrow> hook_state \<Rightarrow> hook_state" where
  "console_error m s = s\<lparr>console := console s @ [Err m]\<rparr>"

definition lookup_ws :: "hook_state \<Rightarrow> nat \<Rightarrow> WebSocket option" where
  "lookup_ws s w = (if w < length (sockets s) then Some (sockets s ! w) else None)"

text \<open>\<^verbatim>\<open>ref.current?.readyState\<close>: undefined (None) when the ref is null.\<close>

definition readyState_of :: "hook_state \<Rightarrow> nat option \<Rightarrow> ReadyState option" where
  "readyState_of s r =
     (case r of None \<Rightarrow> None | Some w \<Rightarrow> map_option readyState (lookup_ws s w))"

definition set_readyState :: "nat \<Rightarrow> ReadyState \<Rightarrow> hook_state \<Rightarrow> hook_state" where
  "set_readyState w r s =
     s\<lparr>sockets := (sockets s)[w := (sockets s ! w)\<lparr>readyState := r\<rparr>]\<rparr>"

text \<open>
  \<^verbatim>\<open>new WebSocket(url)\<close>: a new object in state CONNECTING; the result is the state and
  the new object's index.
\<close>

definition new_WebSocket :: "Auth \<Rightarrow> hook_state \<Rightarrow> hook_state \<times> nat" where
  "new_WebSocket a s =
     (s\<lparr>sockets := sockets s @ [\<lparr>readyState = CONNECTING, owner = a, sent = []\<rparr>]\<rparr>,
      length (sockets s))"

text \<open>
  \<^verbatim>\<open>ws.close(1000, 'client cleanup')\<close>: nothing happens on a socket that is closing or
  closed; otherwise the socket starts closing. The close event comes later, as an event
  of its own.
\<close>

definition ws_close :: "nat \<Rightarrow> hook_state \<Rightarrow> hook_state" where
  "ws_close w s =
     (case lookup_ws s w of
        None \<Rightarrow> s
      | Some k \<Rightarrow>
          if readyState k = CLOSING \<or> readyState k = CLOSED then s
          else set_readyState w CLOSING s)"

definition ws_send :: "nat \<Rightarrow> frame_out \<Rightarrow> hook_state \<Rightarrow> hook_state" where
  "ws_send w f s =
     s\<lparr>sockets := (sockets s)[w := (sockets s ! w)\<lparr>sent := sent (sockets s ! w) @ [f]\<rparr>]\<rparr>"

text \<open>\<^verbatim>\<open>setInterval\<close> and \<^verbatim>\<open>setTimeout\<close>: a new active timer; the result is its index.\<close>

definition set_timer :: "callback \<Rightarrow> nat \<Rightarrow> hook_state \<Rightarrow> hook_state \<times> nat" where
  "set_timer cb d s =
     (s\<lparr>timers := timers s @ [\<lparr>callback = cb, delay = d, active = True\<rparr>]\<rparr>,
      length (timers s))"

text \<open>\<^verbatim>\<open>clearInterval\<close> and \<^verbatim>\<open>clearTimeout\<close>: the timer never fires again.\<close>

definition clear_timer :: "nat \<Rightarrow> hook_state \<Rightarrow> hook_state" where
  "clear_timer t s = s\<lparr>timers := (timers s)[t := (timers s ! t)\<lparr>active := False\<rparr>]\<rparr>"

subsection \<open>The callbacks of the hook\<close>

text \<open>\<^verbatim>\<open>cleanup\<close>, lines 31 to 51.\<close>

definition cleanup :: "hook_state \<Rightarrow> hook_state" where
  "cleanup s0 =
     (let s1 = console_log Cleaning_up s0;
          s2 = (case heartbeatRef s1 of
                  Some t \<Rightarrow> (clear_timer t s1)\<lparr>heartbeatRef := None\<rparr>
                | None \<Rightarrow> s1);
          s3 = (case retryRef s2 of
                  Some t \<Rightarrow> (clear_timer t s2)\<lparr>retryRef := None\<rparr>
                | None \<Rightarrow> s2);
          s4 = (case wsRef s3 of
                  Some w \<Rightarrow> (ws_close w s3)\<lparr>wsRef := None\<rparr>
                | None \<Rightarrow> s3)
      in s4\<lparr>isConnectingRef := False, status := disconnected\<rparr>)"

text \<open>
  \<^verbatim>\<open>send\<close>, lines 53 to 60. The argument is the outcome of \<^verbatim>\<open>JSON.stringify(payload)\<close>,
  which is evaluated only when the socket is open: None when it throws (a TypeError that
  reaches the caller), the text otherwise.
\<close>

definition send :: "string option \<Rightarrow> hook_state \<Rightarrow> exn + hook_state" where
  "send p s =
     (if readyState_of s (wsRef s) = Some OPEN then
        (case (p, wsRef s) of
           (Some txt, Some w) \<Rightarrow> Inr (console_log Sent_message (ws_send w (Payload txt) s))
         | _ \<Rightarrow> Inl TypeError)
      else Inr (console_warn Cannot_send s))"

text \<open>\<^verbatim>\<open>startHeartbeat\<close>, lines 62 to 75, and the interval's callback, lines 65 to 74.\<close>

definition startHeartbeat :: "nat \<Rightarrow> hook_state \<Rightarrow> hook_state" where
  "startHeartbeat ws s0 =
     (let s1 = (case heartbeatRef s0 of Some t \<Rightarrow> clear_timer t s0 | None \<Rightarrow> s0);
          (s2, t) = set_timer (HeartbeatTick ws) 15000 s1
      in s2\<lparr>heartbeatRef := Some t\<rparr>)"

definition heartbeat_tick :: "nat \<Rightarrow> hook_state \<Rightarrow> hook_state" where
  "heartbeat_tick ws s =
     (if readyState_of s (Some ws) = Some OPEN
      then ws_send ws Ping (console_log Sending_heartbeat s)
      else s)"

text \<open>\<^verbatim>\<open>ws.onopen\<close>, lines 108 to 116.\<close>

definition onopen :: "nat \<Rightarrow> hook_state \<Rightarrow> hook_state" where
  "onopen ws s0 =
     (let s1 = console_log Connected_successfully s0;
          s2 = s1\<lparr>status := connected, isConnectingRef := False, retriesRef := 0\<rparr>
      in startHeartbeat ws s2)"

text \<open>
  Reading a property of a parsed value that is not null: an object gives the value of its
  own property or undefined (None); a number, string, boolean or array has none of the
  properties the handler reads (\<^verbatim>\<open>type\<close>, \<^verbatim>\<open>data\<close>, \<^verbatim>\<open>title\<close>, \<^verbatim>\<open>message\<close>, \<^verbatim>\<open>id\<close>).
\<close>

fun js_prop :: "json \<Rightarrow> string \<Rightarrow> json option" where
  "js_prop (JObj kvs) k = map_of kvs k"
| "js_prop _ k = None"

fun truthy :: "json option \<Rightarrow> bool" where
  "truthy None = False"
| "truthy (Some JNull) = False"
| "truthy (Some (JBool b)) = b"
| "truthy (Some (JNum n)) = (n \<noteq> 0)"
| "truthy (Some (JStr t)) = (t \<noteq> [])"
| "truthy (Some (JArr _)) = True"
| "truthy (Some (JObj _)) = True"

text \<open>\<^verbatim>\<open>a || b\<close> with a literal string on the right.\<close>

definition js_or :: "json option \<Rightarrow> string \<Rightarrow> json" where
  "js_or a b = (case a of Some v \<Rightarrow> if truthy a then v else JStr b | None \<Rightarrow> JStr b)"

definition tag_of :: "json option \<Rightarrow> tag" where
  "tag_of a = (case a of Some v \<Rightarrow> if truthy a then Id v else Now | None \<Rightarrow> Now)"

text \<open>
  The body of the \<^verbatim>\<open>try\<close> in \<^verbatim>\<open>ws.onmessage\<close>, lines 122 to 141: the state it reaches
  and the exception it ends with, if any. \<^verbatim>\<open>msg.type\<close> throws a TypeError when the parsed
  value is null. The update of \<^verbatim>\<open>unread\<close> comes before the desktop notification, so it
  stays when the notification throws.
\<close>

definition onmessage_try :: "MessageEvent \<Rightarrow> hook_state \<Rightarrow> hook_state \<times> exn option" where
  "onmessage_try evt s0 =
     (case parsed evt of
        Throws \<Rightarrow> (s0, Some SyntaxError)
      | Returns msg \<Rightarrow>
          let s1 = console_log Parsed_message s0 in
          if msg = JNull then (s1, Some TypeError)
          else if js_prop msg ''type'' = Some (JStr ''notification'') then
            let s2 = console_log Processing_notification s1;
                s3 = s2\<lparr>unread := unread s2 + 1\<rparr>;
                d = js_prop msg ''data''
            in if permission evt = granted \<and> truthy d then
                 if notification_throws evt then (s3, Some TypeError)
                 else
                   (s3\<lparr>alerts := alerts s3 @
                        [\<lparr>title = js_or (Option.bind d (\<lambda>v. js_prop v ''title'')) ''New Notification'',
                          body = js_or (Option.bind d (\<lambda>v. js_prop v ''message''))
                                   ''You have a new notification'',
                          tag = tag_of (Option.bind d (\<lambda>v. js_prop v ''id'')),
                          icon = ''/favicon.ico''\<rparr>]\<rparr>,
                    None)
               else (s3, None)
          else if js_prop msg ''type'' = Some (JStr ''pong'') then
            (console_log Received_pong s1, None)
          else (console_log Unknown_message_type s1, None))"

text \<open>\<^verbatim>\<open>ws.onmessage\<close>, lines 118 to 146: the \<^verbatim>\<open>try\<close> with its \<^verbatim>\<open>catch\<close>.\<close>

definition onmessage :: "MessageEvent \<Rightarrow> hook_state \<Rightarrow> hook_state" where
  "onmessage evt s0 =
     (let s1 = console_log Raw_message s0 in
      case onmessage_try evt s1 of
        (s2, None) \<Rightarrow> s2
      | (s2, Some err) \<Rightarrow>
          console_error Raw_data (console_error Failed_to_parse s2))"

text \<open>The delay of line 165, for the value \<open>n\<close> of \<^verbatim>\<open>retriesRef.current\<close> after line 164.\<close>

definition reconnect_delay :: "nat \<Rightarrow> nat" where
  "reconnect_delay n = min (1000 * 2 ^ (n - 1)) 30000"

text \<open>
  \<^verbatim>\<open>ws.onclose\<close>, lines 148 to 177, for a socket whose handlers close over \<open>a\<close>.
\<close>

definition onclose :: "Auth \<Rightarrow> bool \<Rightarrow> hook_state \<Rightarrow> hook_state" where
  "onclose a wasClean s0 =
     (let s1 = console_log WebSocket_closed s0;
          s2 = s1\<lparr>isConnectingRef := False\<rparr>;
          s3 = (case heartbeatRef s2 of
                  Some t \<Rightarrow> (clear_timer t s2)\<lparr>heartbeatRef := None\<rparr>
                | None \<Rightarrow> s2)
      in if \<not> wasClean \<and> retriesRef s3 < 5 \<and> isAuthenticated a \<and> user a \<noteq> None then
           let s4 = s3\<lparr>retriesRef := retriesRef s3 + 1\<rparr>;
               d = reconnect_delay (retriesRef s4);
               s5 = console_log Reconnecting s4;
               s6 = s5\<lparr>status := connecting\<rparr>;
               (s7, t) = set_timer (RetryConnect a) d s6
           in s7\<lparr>retryRef := Some t\<rparr>
         else s3\<lparr>status := (if wasClean then disconnected else error), wsRef := None\<rparr>)"

text \<open>\<^verbatim>\<open>ws.onerror\<close>, lines 179 to 183.\<close>

definition onerror :: "hook_state \<Rightarrow> hook_state" where
  "onerror s = (console_error WebSocket_error s)\<lparr>status := error, isConnectingRef := False\<rparr>"

text \<open>
  \<^verbatim>\<open>connect\<close>, lines 77 to 190, of the render with the values \<open>a\<close>. \<open>throws\<close> says
  whether \<^verbatim>\<open>new WebSocket(wsUrl)\<close> throws (the \<^verbatim>\<open>catch\<close> of line 185).
\<close>

definition connect :: "Auth \<Rightarrow> bool \<Rightarrow> hook_state \<Rightarrow> hook_state" where
  "connect a throws s0 =
     (if \<not> isAuthenticated a \<or> \<not> has_userId a then
        console_log Cannot_connect s0
      else if isConnectingRef s0 then console_log Already_connecting s0
      else if readyState_of s0 (wsRef s0) = Some OPEN then
        console_log Already_connected s0
      else
        let s1 = (if wsRef s0 \<noteq> None then cleanup s0 else s0);
            s2 = console_log Connecting_to_WebSocket s1;
            s3 = s2\<lparr>status := connecting, isConnectingRef := True\<rparr>
        in if throws then
             (console_error Failed_to_create s3)
               \<lparr>status := error, isConnectingRef := False\<rparr>
           else
             let (s4, ws) = new_WebSocket a s3 in s4\<lparr>wsRef := Some ws\<rparr>)"

text \<open>The connection effect, lines 193 to 204; its cleanup function is \<^verbatim>\<open>cleanup\<close>.\<close>

definition auth_effect :: "Auth \<Rightarrow> bool \<Rightarrow> hook_state \<Rightarrow> hook_state" where
  "auth_effect a throws s =
     (if isAuthenticated a \<and> has_userId a
      then connect a throws (console_log Auth_connecting s)
      else cleanup (console_log Auth_cleaning_up s))"

text \<open>\<^verbatim>\<open>handleVisibilityChange\<close>, lines 217 to 225; \<open>hidden\<close> is \<^verbatim>\<open>document.hidden\<close>.\<close>

definition handleVisibilityChange :: "bool \<Rightarrow> Auth \<Rightarrow> bool \<Rightarrow> hook_state \<Rightarrow> hook_state" where
  "handleVisibilityChange hidden a throws s =
     (if \<not> hidden \<and> isAuthenticated a \<and> has_userId a then
        if wsRef s = None \<or> readyState_of s (wsRef s) \<noteq> Some OPEN
        then connect a throws (console_log Tab_visible s)
        else s
      else s)"

text \<open>\<^verbatim>\<open>resetUnread\<close>, lines 237 to 240.\<close>

definition resetUnread :: "hook_state \<Rightarrow> hook_state" where
  "resetUnread s = (console_log Resetting_unread s)\<lparr>unread := 0\<rparr>"

subsection \<open>Events\<close>

text \<open>
  What can happen to a mounted hook. \<open>Connect\<close> and \<open>Cleanup\<close> are calls of the two
  functions, \<open>AuthEffect\<close> is a run of the connection effect (its cleanup function is
  \<open>Cleanup\<close>), \<open>VisibilityChange\<close> a run of the visibility handler, \<open>ResetUnread\<close> and
  \<open>Send\<close> are calls from a page; the others are callbacks the browser runs for a socket or
  a timer. The boolean that ends \<open>Connect\<close>, \<open>AuthEffect\<close>, \<open>VisibilityChange\<close> and
  \<open>TimerFires\<close> says whether \<^verbatim>\<open>new WebSocket\<close> throws if \<^verbatim>\<open>connect\<close> reaches it. The
  browser's rules are part of the step function:
  \<^item> the open event comes to a socket that is CONNECTING and makes it OPEN;
  \<^item> a message event comes to a socket that is OPEN;
  \<^item> the close event comes once to a socket, which is CLOSED from then on, with
    \<^verbatim>\<open>wasClean\<close> as the browser found it;
  \<^item> the error event comes to a socket that has not been closed yet;
  \<^item> a timer fires while it is active; a timeout fires once.
  An event that the browser cannot deliver leaves the state as it is.
\<close>

datatype event =
    Connect Auth bool
  | Cleanup
  | AuthEffect Auth bool
  | VisibilityChange bool Auth bool
  | ResetUnread
  | Send "string option"
  | OnOpen nat
  | OnMessage nat MessageEvent
  | OnClose nat bool
  | OnError nat
  | TimerFires nat bool

definition fire :: "nat \<Rightarrow> bool \<Rightarrow> hook_state \<Rightarrow> hook_state" where
  "fire t throws s =
     (if t < length (timers s) \<and> active (timers s ! t) then
        (case callback (timers s ! t) of
           HeartbeatTick ws \<Rightarrow> heartbeat_tick ws s
         | RetryConnect a \<Rightarrow> connect a throws (clear_timer t s))
      else s)"

fun step :: "event \<Rightarrow> hook_state \<Rightarrow> hook_state" where
  "step (Connect a throws) s = connect a throws s"
| "step Cleanup s = cleanup s"
| "step (AuthEffect a throws) s = auth_effect a throws s"
| "step (VisibilityChange hidden a throws) s = handleVisibilityChange hidden a throws s"
| "step ResetUnread s = resetUnread s"
| "step (Send p) s = (case send p s of Inl _ \<Rightarrow> s | Inr s' \<Rightarrow> s')"
| "step (OnOpen w) s =
     (if readyState_of s (Some w) = Some CONNECTING
      then onopen w (set_readyState w OPEN s) else s)"
| "step (OnMessage w evt) s =
     (if readyState_of s (Some w) = Some OPEN then onmessage evt s else s)"
| "step (OnClose w wasClean) s =
     (case lookup_ws s w of
        None \<Rightarrow> s
      | Some k \<Rightarrow>
          if readyState k = CLOSED then s
          else onclose (owner k) wasClean (set_readyState w CLOSED s))"
| "step (OnError w) s =
     (case lookup_ws s w of
        None \<Rightarrow> s
      | Some k \<Rightarrow> if readyState k = CLOSED then s else onerror s)"
| "step (TimerFires t throws) s = fire t throws s"

text \<open>A history of events, oldest first.\<close>

definition run :: "event list \<Rightarrow> hook_state \<Rightarrow> hook_state" where
  "run es s = foldl (\<lambda>s e. step e s) s es"

subsection \<open>Vocabulary of the properties\<close>

text \<open>An event that delivers a frame whose \<^verbatim>\<open>type\<close> is \<^verbatim>\<open>notification\<close> to the handler.\<close>

definition delivers_notification :: "event \<Rightarrow> hook_state \<Rightarrow> bool" where
  "delivers_notification e s =
     (case e of
        OnMessage w evt \<Rightarrow>
          readyState_of s (Some w) = Some OPEN \<and>
          (case parsed evt of
             Returns msg \<Rightarrow> js_prop msg ''type'' = Some (JStr ''notification'')
           | Throws \<Rightarrow> False)
      | _ \<Rightarrow> False)"

text \<open>An event that is a successful open of a socket.\<close>

definition opens :: "event \<Rightarrow> hook_state \<Rightarrow> bool" where
  "opens e s =
     (case e of OnOpen w \<Rightarrow> readyState_of s (Some w) = Some CONNECTING | _ \<Rightarrow> False)"

text \<open>An event that is the unclean close of a socket.\<close>

definition closes_unclean :: "event \<Rightarrow> hook_state \<Rightarrow> bool" where
  "closes_unclean e s =
     (case e of
        OnClose w wasClean \<Rightarrow>
          \<not> wasClean \<and>
          (case lookup_ws s w of Some k \<Rightarrow> readyState k \<noteq> CLOSED | None \<Rightarrow> False)
      | _ \<Rightarrow> False)"

text \<open>No socket opens successfully during the history \<open>es\<close> that starts in \<open>s\<close>.\<close>

fun quiet :: "event list \<Rightarrow> hook_state \<Rightarrow> bool" where
  "quiet [] s = True"
| "quiet (e # es) s = (\<not> opens e s \<and> quiet es (step e s))"

text \<open>The number of unclean closes during the history \<open>es\<close> that starts in \<open>s\<close>.\<close>

fun unclean_count :: "event list \<Rightarrow> hook_state \<Rightarrow> nat" where
  "unclean_count [] s = 0"
| "unclean_count (e # es) s =
     (if closes_unclean e s then 1 else 0) + unclean_count es (step e s)"

text \<open>An event in which \<^verbatim>\<open>new WebSocket\<close> throws, if \<^verbatim>\<open>connect\<close> gets that far.\<close>

definition throwing :: "event \<Rightarrow> bool" where
  "throwing e =
     (case e of
        Connect a t \<Rightarrow> t
      | AuthEffect a t \<Rightarrow> t
      | VisibilityChange h a t \<Rightarrow> t
      | TimerFires i t \<Rightarrow> t
      | _ \<Rightarrow> False)"

text \<open>
  Every socket was created by a \<^verbatim>\<open>connect\<close> that passed the check of line 78, so its
  handlers close over an authenticated user with an id.
\<close>

definition owners_signed_in :: "hook_state \<Rightarrow> bool" where
  "owners_signed_in s =
     list_all (\<lambda>a. isAuthenticated a \<and> has_userId a) (map owner (sockets s))"

text \<open>The sockets that are connecting or open.\<close>

definition live_sockets :: "hook_state \<Rightarrow> nat list" where
  "live_sockets s =
     filter (\<lambda>w. readyState (sockets s ! w) = CONNECTING \<or> readyState (sockets s ! w) = OPEN)
       [0 ..< length (sockets s)]"

text \<open>The timers that can still fire.\<close>

definition active_timers :: "hook_state \<Rightarrow> nat list" where
  "active_timers s = filter (\<lambda>t. active (timers s ! t)) [0 ..< length (timers s)]"

subsection \<open>Concrete inputs\<close>

definition demo_user :: User where
  "demo_user = \<lparr>userId = ''u1'', name = ''Asha'', email = ''asha@example.com'',
                 createdAt = ''2025-01-01'', updatedAt = ''2025-01-01''\<rparr>"

definition signed_in :: Auth where
  "signed_in = \<lparr>user = Some demo_user, isAuthenticated = True\<rparr>"

text \<open>The frame \<^verbatim>\<open>{type:"notification", data:{id:"n1", title:"X"}}\<close> of Scenario B.\<close>

definition frame_n1 :: MessageEvent where
  "frame_n1 =
     \<lparr>parsed = Returns (JObj [(''type'', JStr ''notification''),
                              (''data'', JObj [(''id'', JStr ''n1''), (''title'', JStr ''X'')])]),
      permission = granted, notification_throws = False\<rparr>"

text \<open>A frame that is not JSON.\<close>

definition frame_garbled :: MessageEvent where
  "frame_garbled = \<lparr>parsed = Throws, permission = granted, notification_throws = False\<rparr>"

text \<open>
  A second user, and the values of \<^verbatim>\<open>useAuth()\<close> after a logout.
\<close>

definition other_user :: User where
  "other_user = \<lparr>userId = ''u2'', name = ''Bela'', email = ''bela@example.com'',
                  createdAt = ''2025-02-02'', updatedAt = ''2025-02-02''\<rparr>"

definition signed_in_other :: Auth where
  "signed_in_other = \<lparr>user = Some other_user, isAuthenticated = True\<rparr>"

definition signed_out :: Auth where
  "signed_out = \<lparr>user = None, isAuthenticated = False\<rparr>"

text \<open>
  The user changes while the channel is open: the effect's cleanup closes socket 0 and the
  effect connects again (socket 1); then the close event of socket 0 arrives, clean; the tab
  becomes visible; sockets 1 and 2 open.
\<close>

definition stale_close_history :: "event list" where
  "stale_close_history =
     [AuthEffect signed_in False, OnOpen 0,
      Cleanup, AuthEffect signed_in_other False,
      OnClose 0 True,
      VisibilityChange False signed_in_other False,
      OnOpen 1, OnOpen 2]"

text \<open>
  The user logs out before socket 0 is open: the effect's cleanup runs and the effect runs
  for the logged-out user; the browser then reports the aborted connection, with an error
  event and a close event that is not clean.
\<close>

definition aborted_connect_history :: "event list" where
  "aborted_connect_history =
     [AuthEffect signed_in False,
      Cleanup, AuthEffect signed_out False,
      OnError 0, OnClose 0 False]"

text \<open>
  As the first history up to the close event of socket 0; then the user logs out, and after
  that socket 1 opens.
\<close>

definition orphaned_socket_history :: "event list" where
  "orphaned_socket_history =
     [AuthEffect signed_in False, OnOpen 0,
      Cleanup, AuthEffect signed_in_other False,
      OnClose 0 True,
      Cleanup, AuthEffect signed_out False,
      OnOpen 1]"

text \<open>
  A socket is opened and fails uncleanly, and so does each of the reconnects that the
  retry timers start: the history up to the fifth unclean close in a row, and the same
  followed by the fifth reconnect, which creates socket 5.
\<close>

definition five_unclean_closes :: "event list" where
  "five_unclean_closes =
     [Connect signed_in False, OnClose 0 False,
      TimerFires 0 False, OnClose 1 False,
      TimerFires 1 False, OnClose 2 False,
      TimerFires 2 False, OnClose 3 False,
      TimerFires 3 False, OnClose 4 False]"

definition sixth_attempt :: "event list" where
  "sixth_attempt = five_unclean_closes @ [TimerFires 4 False]"

section \<open>Properties\<close>

subsection \<open>Helper facts\<close>

lemmas browser_defs = console_log_def console_warn_def console_error_def lookup_ws_def
  readyState_of_def set_readyState_def new_WebSocket_def ws_close_def ws_send_def
  set_timer_def clear_timer_def

lemma signed_in_simps [simp]:
  "isAuthenticated signed_in" "has_userId signed_in" "user signed_in \<noteq> None"
  by (simp_all add: signed_in_def demo_user_def has_userId_def)

lemma frame_n1_simps [simp]:
  "parsed frame_n1 = Returns (JObj [(''type'', JStr ''notification''),
     (''data'', JObj [(''id'', JStr ''n1''), (''title'', JStr ''X'')])])"
  "permission frame_n1 = granted" "\<not> notification_throws frame_n1"
  by (simp_all add: frame_n1_def)

lemma frame_garbled_simps [simp]: "parsed frame_garbled = Throws"
  by (simp add: frame_garbled_def)

lemmas example_defs = init_def five_unclean_closes_def sixth_attempt_def

lemmas callback_defs = run_def connect_def cleanup_def onopen_def startHeartbeat_def
  heartbeat_tick_def onclose_def onerror_def onmessage_def onmessage_try_def fire_def
  auth_effect_def handleVisibilityChange_def resetUnread_def send_def reconnect_delay_def
  js_or_def tag_of_def Let_def

lemma run_snoc: "run (es @ [e]) s = step e (run es s)"
  by (simp add: run_def)

lemma run_append: "run (es @ fs) s = run fs (run es s)"
  by (simp add: run_def)

paragraph \<open>The unread count\<close>

lemma unread_cleanup [simp]: "unread (cleanup s) = unread s"
  by (simp add: cleanup_def browser_defs Let_def split: option.splits)

lemma unread_connect [simp]: "unread (connect a t s) = unread s"
  by (simp add: connect_def browser_defs Let_def split: option.splits)

lemma unread_onopen [simp]: "unread (onopen w s) = unread s"
  by (simp add: onopen_def startHeartbeat_def browser_defs Let_def split: option.splits)

lemma unread_onclose [simp]: "unread (onclose a c s) = unread s"
  by (simp add: onclose_def browser_defs Let_def split: option.splits)

lemma unread_fire [simp]: "unread (fire t b s) = unread s"
  by (simp add: fire_def heartbeat_tick_def browser_defs split: callback.splits)

lemma unread_send: "unread (case send p s of Inl x \<Rightarrow> s | Inr s' \<Rightarrow> s') = unread s"
  by (simp add: send_def browser_defs split: option.splits)

lemma unread_onmessage:
  "unread (onmessage evt s) =
     (case parsed evt of
        Returns msg \<Rightarrow>
          if js_prop msg ''type'' = Some (JStr ''notification'') then unread s + 1 else unread s
      | Throws \<Rightarrow> unread s)"
  by (cases "parsed evt")
     (auto simp add: onmessage_def onmessage_try_def browser_defs Let_def)

paragraph \<open>The renders that own the sockets\<close>

lemma map_owner_readyState [simp]:
  "map owner (xs[i := (xs ! i)\<lparr>readyState := r\<rparr>]) = map owner xs"
proof (cases "i < length xs")
  case True
  then show ?thesis by (auto simp add: list_eq_iff_nth_eq nth_list_update)
next
  case False
  then have "length xs \<le> i" by arith
  then show ?thesis by (simp only: list_update_beyond)
qed

lemma map_owner_sent [simp]:
  "map owner (xs[i := (xs ! i)\<lparr>sent := f\<rparr>]) = map owner xs"
proof (cases "i < length xs")
  case True
  then show ?thesis by (auto simp add: list_eq_iff_nth_eq nth_list_update)
next
  case False
  then have "length xs \<le> i" by arith
  then show ?thesis by (simp only: list_update_beyond)
qed

lemma owners_cleanup [simp]: "map owner (sockets (cleanup s)) = map owner (sockets s)"
  by (simp add: cleanup_def browser_defs Let_def split: option.splits)

lemma owners_connect:
  "map owner (sockets (connect a t s)) = map owner (sockets s) \<or>
   (isAuthenticated a \<and> has_userId a \<and>
    map owner (sockets (connect a t s)) = map owner (sockets s) @ [a])"
  by (simp add: connect_def console_log_def console_error_def new_WebSocket_def Let_def)

lemma owners_onopen [simp]: "map owner (sockets (onopen w s)) = map owner (sockets s)"
  by (simp add: onopen_def startHeartbeat_def browser_defs Let_def split: option.splits)

lemma owners_onclose [simp]: "map owner (sockets (onclose a c s)) = map owner (sockets s)"
  by (simp add: onclose_def browser_defs Let_def split: option.splits)

lemma owners_onmessage [simp]: "map owner (sockets (onmessage evt s)) = map owner (sockets s)"
  by (simp add: onmessage_def onmessage_try_def browser_defs Let_def split: JSON_parse.splits)

lemma owners_fire:
  "map owner (sockets (fire t b s)) = map owner (sockets s) \<or>
   (\<exists>a. isAuthenticated a \<and> has_userId a \<and>
     map owner (sockets (fire t b s)) = map owner (sockets s) @ [a])"
proof (cases "t < length (timers s) \<and> active (timers s ! t)")
  case False
  then show ?thesis by (auto simp add: fire_def)
next
  case True
  show ?thesis
  proof (cases "callback (timers s ! t)")
    case (HeartbeatTick w)
    with True show ?thesis by (simp add: fire_def heartbeat_tick_def browser_defs)
  next
    case (RetryConnect a)
    with True owners_connect [of a b "clear_timer t s"] show ?thesis
      by (auto simp add: fire_def clear_timer_def)
  qed
qed

lemma owners_step:
  "map owner (sockets (step e s)) = map owner (sockets s) \<or>
   (\<exists>a. isAuthenticated a \<and> has_userId a \<and>
     map owner (sockets (step e s)) = map owner (sockets s) @ [a])"
proof (cases e)
  case (Connect a t)
  with owners_connect [of a t s] show ?thesis by auto
next
  case (AuthEffect a t)
  with owners_connect [of a t "console_log Auth_connecting s"]
  show ?thesis by (auto simp add: auth_effect_def console_log_def)
next
  case (VisibilityChange h a t)
  with owners_connect [of a t "console_log Tab_visible s"]
  show ?thesis by (auto simp add: handleVisibilityChange_def console_log_def)
next
  case (TimerFires t b)
  with owners_fire [of t b s] show ?thesis by simp
next
  case (Send p)
  then show ?thesis by (simp add: send_def browser_defs split: option.splits)
qed (simp_all add: resetUnread_def onerror_def browser_defs split: option.splits)

lemma owners_signed_in_step: "owners_signed_in s \<Longrightarrow> owners_signed_in (step e s)"
  using owners_step [of e s] by (auto simp add: owners_signed_in_def)

lemma owners_signed_in_run: "owners_signed_in (run es init)"
proof (induction es rule: rev_induct)
  case Nil
  show ?case by (simp add: run_def init_def owners_signed_in_def)
next
  case (snoc e es)
  then show ?case by (simp add: run_snoc owners_signed_in_step)
qed

lemma owner_signed_in:
  "owners_signed_in s \<Longrightarrow> lookup_ws s w = Some k \<Longrightarrow>
     isAuthenticated (owner k) \<and> user (owner k) \<noteq> None"
  by (auto simp add: owners_signed_in_def lookup_ws_def list_all_length has_userId_def
      split: if_splits option.splits)

lemma run_Cons: "run (e # es) s = run es (step e s)"
  by (simp add: run_def)

paragraph \<open>The retry counter, the timers, the status\<close>

lemma retries_cleanup [simp]: "retriesRef (cleanup s) = retriesRef s"
  by (simp add: cleanup_def browser_defs Let_def split: option.splits)

lemma retries_connect [simp]: "retriesRef (connect a t s) = retriesRef s"
  by (simp add: connect_def browser_defs Let_def split: option.splits)

lemma retries_onopen [simp]: "retriesRef (onopen w s) = 0"
  by (simp add: onopen_def startHeartbeat_def browser_defs Let_def split: option.splits)

lemma retries_onclose:
  "retriesRef (onclose a c s) =
     (if \<not> c \<and> retriesRef s < 5 \<and> isAuthenticated a \<and> user a \<noteq> None
      then retriesRef s + 1 else retriesRef s)"
  by (simp add: onclose_def browser_defs Let_def split: option.splits)

lemma retries_onmessage [simp]: "retriesRef (onmessage evt s) = retriesRef s"
  by (simp add: onmessage_def onmessage_try_def browser_defs Let_def split: JSON_parse.splits)

lemma retries_fire [simp]: "retriesRef (fire t b s) = retriesRef s"
  by (simp add: fire_def heartbeat_tick_def browser_defs split: callback.splits)

lemma retries_send: "retriesRef (case send p s of Inl x \<Rightarrow> s | Inr s' \<Rightarrow> s') = retriesRef s"
  by (simp add: send_def browser_defs split: option.splits)

lemma retries_step:
  assumes "owners_signed_in s"
  shows "retriesRef (step e s) =
     (if opens e s then 0
      else if closes_unclean e s \<and> retriesRef s < 5 then retriesRef s + 1
      else retriesRef s)"
proof (cases e)
  case (OnClose w c)
  show ?thesis
  proof (cases "lookup_ws s w")
    case None
    with OnClose show ?thesis by (simp add: opens_def closes_unclean_def)
  next
    case (Some k)
    with assms have "isAuthenticated (owner k) \<and> user (owner k) \<noteq> None"
      by (rule owner_signed_in)
    with OnClose Some show ?thesis
      by (simp add: opens_def closes_unclean_def retries_onclose set_readyState_def)
  qed
next
  case (OnOpen w)
  then show ?thesis by (simp add: opens_def closes_unclean_def set_readyState_def)
next
  case (Send p)
  then show ?thesis by (simp add: opens_def closes_unclean_def retries_send)
qed (simp_all add: opens_def closes_unclean_def auth_effect_def handleVisibilityChange_def
      resetUnread_def onerror_def console_log_def console_error_def split: option.splits)

lemma retries_le_5_step:
  "retriesRef s \<le> 5 \<Longrightarrow> retriesRef (step e s) \<le> 5"
proof (cases e)
  case (OnClose w c)
  assume "retriesRef s \<le> 5"
  with OnClose show ?thesis
    by (simp add: retries_onclose set_readyState_def split: option.splits)
next
  case (Send p)
  assume "retriesRef s \<le> 5"
  with Send show ?thesis by (simp add: retries_send)
qed (simp_all add: auth_effect_def handleVisibilityChange_def
      resetUnread_def onerror_def console_log_def console_error_def set_readyState_def split: option.splits)

lemma retries_le_5_run: "retriesRef (run es init) \<le> 5"
proof (induction es rule: rev_induct)
  case Nil
  show ?case by (simp add: run_def init_def)
next
  case (snoc e es)
  then show ?case by (simp add: run_snoc retries_le_5_step)
qed

lemma length_timers_cleanup [simp]: "length (timers (cleanup s)) = length (timers s)"
  by (simp add: cleanup_def browser_defs Let_def split: option.splits)

lemma length_timers_connect [simp]: "length (timers (connect a t s)) = length (timers s)"
  by (simp add: connect_def browser_defs Let_def split: option.splits)

lemma length_timers_onmessage [simp]: "length (timers (onmessage evt s)) = length (timers s)"
  by (simp add: onmessage_def onmessage_try_def browser_defs Let_def split: JSON_parse.splits)

lemma length_timers_fire [simp]: "length (timers (fire t b s)) = length (timers s)"
  by (simp add: fire_def heartbeat_tick_def browser_defs split: callback.splits)

lemma length_timers_send:
  "length (timers (case send p s of Inl x \<Rightarrow> s | Inr s' \<Rightarrow> s')) = length (timers s)"
  by (simp add: send_def browser_defs split: option.splits)

lemma onclose_exhausted:
  "5 \<le> retriesRef s \<Longrightarrow>
     length (timers (onclose a c s)) = length (timers s) \<and>
     retriesRef (onclose a c s) = retriesRef s \<and>
     status (onclose a c s) = (if c then disconnected else error) \<and>
     wsRef (onclose a c s) = None"
  by (simp add: onclose_def browser_defs Let_def split: option.splits)

lemma onclose_retry:
  "\<not> c \<Longrightarrow> retriesRef s < 5 \<Longrightarrow> isAuthenticated a \<Longrightarrow> user a \<noteq> None \<Longrightarrow>
     status (onclose a c s) = connecting \<and>
     retriesRef (onclose a c s) = retriesRef s + 1 \<and>
     length (timers (onclose a c s)) = Suc (length (timers s)) \<and>
     last (timers (onclose a c s)) =
       \<lparr>callback = RetryConnect a, delay = reconnect_delay (retriesRef s + 1), active = True\<rparr> \<and>
     retryRef (onclose a c s) = Some (length (timers s))"
  by (simp add: onclose_def browser_defs Let_def split: option.splits)

lemma step_closes_unclean:
  assumes "closes_unclean e s"
  obtains w k where "e = OnClose w False" and "lookup_ws s w = Some k" and "readyState k \<noteq> CLOSED"
    and "step e s = onclose (owner k) False (set_readyState w CLOSED s)"
  using assms by (cases e) (auto simp add: closes_unclean_def split: option.splits)

lemma exhausted_step:
  assumes "5 \<le> retriesRef s" and "\<not> opens e s"
  shows "length (timers (step e s)) = length (timers s) \<and> retriesRef (step e s) = retriesRef s"
proof (cases e)
  case (OnClose w c)
  from assms(1) have "5 \<le> retriesRef (set_readyState w CLOSED s)"
    by (simp add: set_readyState_def)
  from onclose_exhausted [OF this] OnClose show ?thesis
    by (simp add: set_readyState_def split: option.splits)
next
  case (OnOpen w)
  with assms(2) show ?thesis by (simp add: opens_def)
next
  case (Send p)
  then show ?thesis by (simp add: retries_send length_timers_send)
qed (simp_all add: auth_effect_def handleVisibilityChange_def
      resetUnread_def onerror_def console_log_def console_error_def split: option.splits)

lemma exhausted_run:
  "5 \<le> retriesRef s \<Longrightarrow> quiet fs s \<Longrightarrow>
     length (timers (run fs s)) = length (timers s) \<and> retriesRef (run fs s) = retriesRef s"
proof (induction fs arbitrary: s)
  case Nil
  show ?case by (simp add: run_def)
next
  case (Cons e fs)
  from Cons.prems have q: "\<not> opens e s" "quiet fs (step e s)" by simp_all
  from exhausted_step [OF Cons.prems(1) q(1)]
  have st: "length (timers (step e s)) = length (timers s)" "retriesRef (step e s) = retriesRef s"
    by simp_all
  with Cons.prems(1) have "5 \<le> retriesRef (step e s)" by simp
  from Cons.IH [OF this q(2)] st show ?case by (simp add: run_Cons)
qed

lemma retries_count:
  "owners_signed_in s \<Longrightarrow> retriesRef s \<le> 5 \<Longrightarrow> quiet fs s \<Longrightarrow>
     retriesRef (run fs s) = min 5 (retriesRef s + unclean_count fs s)"
proof (induction fs arbitrary: s)
  case Nil
  then show ?case by (simp add: run_def)
next
  case (Cons e fs)
  from Cons.prems have q: "\<not> opens e s" "quiet fs (step e s)" by simp_all
  have o: "owners_signed_in (step e s)" using Cons.prems(1) by (rule owners_signed_in_step)
  have b: "retriesRef (step e s) \<le> 5" using Cons.prems(2) by (rule retries_le_5_step)
  have r: "retriesRef (step e s) =
      (if closes_unclean e s \<and> retriesRef s < 5 then retriesRef s + 1 else retriesRef s)"
    using retries_step [OF Cons.prems(1), of e] q(1) by simp
  from Cons.IH [OF o b q(2)] r Cons.prems(2) show ?case
    by (auto simp add: run_Cons)
qed

lemma status_connect:
  "status (connect a t s) = status s \<or> status (connect a t s) = connecting \<or>
   (t \<and> status (connect a t s) = error)"
  by (simp add: connect_def browser_defs Let_def)

lemma status_onmessage [simp]: "status (onmessage evt s) = status s"
  by (simp add: onmessage_def onmessage_try_def browser_defs Let_def split: JSON_parse.splits)

lemma status_cleanup [simp]: "status (cleanup s) = disconnected"
  by (simp add: cleanup_def Let_def)

lemma status_send: "status (case send p s of Inl x \<Rightarrow> s | Inr s' \<Rightarrow> s') = status s"
  by (simp add: send_def browser_defs split: option.splits)

lemma status_onopen [simp]: "status (onopen w s) = connected"
  by (simp add: onopen_def startHeartbeat_def browser_defs Let_def split: option.splits)

lemma status_fire:
  "status (fire i t s) = status s \<or> status (fire i t s) = connecting \<or>
   (t \<and> status (fire i t s) = error)"
proof (cases "i < length (timers s) \<and> active (timers s ! i)")
  case False
  then show ?thesis by (auto simp add: fire_def)
next
  case True
  show ?thesis
  proof (cases "callback (timers s ! i)")
    case (HeartbeatTick w)
    with True show ?thesis by (simp add: fire_def heartbeat_tick_def browser_defs)
  next
    case (RetryConnect a)
    with True status_connect [of a t "clear_timer i s"] show ?thesis
      by (auto simp add: fire_def clear_timer_def)
  qed
qed

lemma error_sources:
  assumes "owners_signed_in s" and "status (step e s) = error" and "status s \<noteq> error"
  shows "(\<exists>w. e = OnError w) \<or> (closes_unclean e s \<and> 5 \<le> retriesRef s) \<or> throwing e"
proof (cases e)
  case (Connect a t)
  with assms status_connect [of a t s] show ?thesis by (auto simp add: throwing_def)
next
  case Cleanup
  with assms show ?thesis by simp
next
  case (AuthEffect a t)
  with assms status_connect [of a t "console_log Auth_connecting s"]
  show ?thesis by (auto simp add: throwing_def auth_effect_def console_log_def split: if_splits)
next
  case (VisibilityChange h a t)
  with assms status_connect [of a t "console_log Tab_visible s"]
  show ?thesis
    by (auto simp add: throwing_def handleVisibilityChange_def console_log_def split: if_splits)
next
  case ResetUnread
  with assms show ?thesis by (simp add: resetUnread_def console_log_def)
next
  case (Send p)
  with assms show ?thesis by (simp add: status_send)
next
  case (OnOpen w)
  with assms show ?thesis by (simp split: if_splits)
next
  case (OnMessage w evt)
  with assms show ?thesis by (simp split: if_splits)
next
  case (OnClose w c)
  show ?thesis
  proof (cases "lookup_ws s w")
    case None
    with OnClose assms show ?thesis by simp
  next
    case (Some k)
    with assms(1) have a: "isAuthenticated (owner k)" "user (owner k) \<noteq> None"
      using owner_signed_in by blast+
    show ?thesis
    proof (cases "\<not> c \<and> retriesRef s < 5")
      case True
      then have "retriesRef (set_readyState w CLOSED s) < 5" "\<not> c"
        by (simp_all add: set_readyState_def)
      from onclose_retry [OF this(2) this(1) a] OnClose Some assms show ?thesis
        by (simp split: if_splits)
    next
      case False
      with OnClose Some assms show ?thesis
        by (auto simp add: closes_unclean_def onclose_def browser_defs Let_def
            split: if_splits option.splits)
    qed
  qed
next
  case (OnError w)
  then show ?thesis by simp
next
  case (TimerFires i t)
  with assms status_fire [of i t s] show ?thesis by (auto simp add: throwing_def)
qed

lemmas trace_defs = callback_defs browser_defs example_defs

lemma reconnect_delay_closed_form:
  assumes "1 \<le> n"
  shows "reconnect_delay n = (if n \<le> 5 then 1000 * 2 ^ (n - 1) else 30000)"
proof (cases "n \<le> 5")
  case True
  then have "(2::nat) ^ (n - 1) \<le> 2 ^ 4" by (intro power_increasing) simp_all
  then have "1000 * (2::nat) ^ (n - 1) \<le> 30000" by simp
  with True show ?thesis by (simp add: reconnect_delay_def)
next
  case False
  then have "(2::nat) ^ 5 \<le> 2 ^ (n - 1)" by (intro power_increasing) simp_all
  then have "30000 \<le> 1000 * (2::nat) ^ (n - 1)" by simp
  with False show ?thesis by (simp add: reconnect_delay_def)
qed

lemma step_unclean_retry:
  assumes "owners_signed_in s" and "closes_unclean e s" and "retriesRef s < 5"
  shows "status (step e s) = connecting \<and>
     retriesRef (step e s) = retriesRef s + 1 \<and>
     length (timers (step e s)) = Suc (length (timers s)) \<and>
     delay (last (timers (step e s))) = reconnect_delay (retriesRef s + 1) \<and>
     active (last (timers (step e s))) \<and>
     (\<exists>a. callback (last (timers (step e s))) = RetryConnect a) \<and>
     retryRef (step e s) = Some (length (timers s))"
proof -
  from assms(2) obtain w k where "e = OnClose w False" and k: "lookup_ws s w = Some k"
    and "readyState k \<noteq> CLOSED"
    and st: "step e s = onclose (owner k) False (set_readyState w CLOSED s)"
    by (rule step_closes_unclean)
  from assms(1) k have a: "isAuthenticated (owner k)" "user (owner k) \<noteq> None"
    using owner_signed_in by blast+
  from assms(3) have r: "retriesRef (set_readyState w CLOSED s) < 5"
    by (simp add: set_readyState_def)
  from onclose_retry [OF _ r a, of False] st show ?thesis
    by (simp add: set_readyState_def)
qed

lemma step_unclean_exhausted:
  assumes "closes_unclean e s" and "5 \<le> retriesRef s"
  shows "status (step e s) = error \<and> length (timers (step e s)) = length (timers s) \<and>
     retriesRef (step e s) = retriesRef s \<and> wsRef (step e s) = None"
proof -
  from assms(1) obtain w k where "e = OnClose w False" and "lookup_ws s w = Some k"
    and "readyState k \<noteq> CLOSED"
    and st: "step e s = onclose (owner k) False (set_readyState w CLOSED s)"
    by (rule step_closes_unclean)
  from assms(2) have r: "5 \<le> retriesRef (set_readyState w CLOSED s)"
    by (simp add: set_readyState_def)
  from onclose_exhausted [OF r, of "owner k" False] st show ?thesis
    by (simp add: set_readyState_def)
qed

lemma delay_of_nth_close:
  assumes z: "retriesRef (run es init) = 0" and q: "quiet fs (run es init)"
    and c: "closes_unclean e (run (es @ fs) init)"
    and k: "unclean_count fs (run es init) = n - 1" and n: "1 \<le> n" "n \<le> 5"
  shows "retriesRef (step e (run (es @ fs) init)) = n \<and>
     delay (last (timers (step e (run (es @ fs) init)))) = reconnect_delay n"
proof -
  have "retriesRef (run (es @ fs) init) = min 5 (unclean_count fs (run es init))"
    using retries_count [OF owners_signed_in_run _ q] z by (simp add: run_append)
  with k n have r: "retriesRef (run (es @ fs) init) = n - 1" by simp
  with n have "retriesRef (run (es @ fs) init) < 5" by simp
  from step_unclean_retry [OF owners_signed_in_run c this] r n show ?thesis by simp
qed

paragraph \<open>Message events\<close>

lemma sockets_onmessage [simp]: "sockets (onmessage evt s) = sockets s"
  by (simp add: onmessage_def onmessage_try_def browser_defs Let_def split: JSON_parse.splits)

lemma readyState_of_onmessage [simp]:
  "readyState_of (onmessage evt s) r = readyState_of s r"
  by (cases r) (simp_all add: readyState_of_def lookup_ws_def)

lemma run_replicate_notification:
  assumes "parsed evt = Returns msg" and "js_prop msg ''type'' = Some (JStr ''notification'')"
  shows "readyState_of s (Some w) = Some OPEN \<Longrightarrow>
     unread (run (replicate n (OnMessage w evt)) s) = unread s + n \<and>
     readyState_of (run (replicate n (OnMessage w evt)) s) (Some w) = Some OPEN"
proof (induction n arbitrary: s)
  case 0
  then show ?case by (simp add: run_def)
next
  case (Suc n)
  from Suc.prems have o: "readyState_of (step (OnMessage w evt) s) (Some w) = Some OPEN"
    by simp
  from Suc.prems assms have u: "unread (step (OnMessage w evt) s) = unread s + 1"
    by (simp add: unread_onmessage)
  from Suc.IH [OF o] u show ?case by (simp add: run_Cons)
qed

lemma alert_of_notification:
  assumes "parsed evt = Returns msg" and "js_prop msg ''type'' = Some (JStr ''notification'')"
    and "permission evt = granted" and "\<not> notification_throws evt"
    and "js_prop msg ''data'' = Some d" and "truthy (Some d)"
    and "js_prop d ''id'' = Some i" and "truthy (Some i)"
  shows "length (alerts (onmessage evt s)) = Suc (length (alerts s)) \<and>
     tag (last (alerts (onmessage evt s))) = Id i"
proof -
  from assms(2) have "msg \<noteq> JNull" by auto
  with assms show ?thesis
    by (simp add: onmessage_def onmessage_try_def console_log_def Let_def tag_of_def)
qed

paragraph \<open>The histories, and calling connect twice\<close>

lemma signed_in_other_simps [simp]:
  "isAuthenticated signed_in_other" "has_userId signed_in_other" "user signed_in_other \<noteq> None"
  by (simp_all add: signed_in_other_def other_user_def has_userId_def)

lemma signed_out_simps [simp]: "\<not> isAuthenticated signed_out"
  by (simp add: signed_out_def)

lemmas history_defs = stale_close_history_def aborted_connect_history_def
  orphaned_socket_history_def

lemma connect_early:
  "isConnectingRef s \<or> readyState_of s (wsRef s) = Some OPEN \<Longrightarrow>
   isAuthenticated a \<Longrightarrow> has_userId a \<Longrightarrow>
     connect a t s =
       console_log (if isConnectingRef s then Already_connecting else Already_connected) s"
  by (auto simp add: connect_def)

lemma readyState_of_console_log [simp]:
  "readyState_of (console_log m s) r = readyState_of s r"
  by (cases r) (simp_all add: readyState_of_def lookup_ws_def console_log_def)

lemma console_log_refs [simp]:
  "wsRef (console_log m s) = wsRef s"
  "isConnectingRef (console_log m s) = isConnectingRef s"
  "sockets (console_log m s) = sockets s"
  by (simp_all add: console_log_def)

lemma connect_twice:
  "sockets (connect a t (connect a False s)) = sockets (connect a False s) \<and>
   wsRef (connect a t (connect a False s)) = wsRef (connect a False s)"
proof (cases "\<not> isAuthenticated a \<or> \<not> has_userId a")
  case True
  then show ?thesis by (auto simp add: connect_def)
next
  case auth: False
  show ?thesis
  proof (cases "isConnectingRef s \<or> readyState_of s (wsRef s) = Some OPEN")
    case True
    with auth have 1: "connect a False s =
        console_log (if isConnectingRef s then Already_connecting else Already_connected) s"
      by (simp add: connect_early)
    from True have "isConnectingRef (connect a False s) \<or>
        readyState_of (connect a False s) (wsRef (connect a False s)) = Some OPEN"
      unfolding 1 by simp
    with auth have "connect a t (connect a False s) =
        console_log (if isConnectingRef (connect a False s) then Already_connecting
                     else Already_connected) (connect a False s)"
      by (simp add: connect_early)
    then show ?thesis by simp
  next
    case False
    with auth have "isConnectingRef (connect a False s)"
      by (simp add: connect_def Let_def new_WebSocket_def)
    with auth have "connect a t (connect a False s) =
        console_log Already_connecting (connect a False s)"
      by (simp add: connect_early)
    then show ?thesis by simp
  qed
qed

lemma length_sockets_cleanup [simp]: "length (sockets (cleanup s)) = length (sockets s)"
  by (simp add: cleanup_def browser_defs Let_def split: option.splits)

lemma connect_one_socket: "length (sockets (connect a t s)) \<le> Suc (length (sockets s))"
  by (simp add: connect_def Let_def new_WebSocket_def console_log_def console_error_def)

section \<open>The claims\<close>

subsection \<open>C1: one channel at a time\<close>

text \<open>
  Claim C1, at the history \<open>stale_close_history\<close>. After the user has changed, \<^verbatim>\<open>wsRef\<close>
  holds the new socket 1 and socket 0 is closing. The close event of socket 0 then runs the
  handler of lines 148 to 177, which takes the branch of line 174 and sets \<^verbatim>\<open>wsRef\<close> to
  null and the connecting flag to false although \<^verbatim>\<open>wsRef\<close> holds socket 1. The next
  \<^verbatim>\<open>connect\<close>, here from the visibility handler, finds no socket and creates socket 2
  while socket 1 is connecting. Both open: two channels are open at once, and \<^verbatim>\<open>wsRef\<close>
  holds only the second.
\<close>

theorem two_channels_open:
  "map readyState (sockets (run (take 4 stale_close_history) init)) = [CLOSING, CONNECTING] \<and>
   wsRef (run (take 4 stale_close_history) init) = Some 1 \<and>
   wsRef (run (take 5 stale_close_history) init) = None \<and>
   isConnectingRef (run (take 5 stale_close_history) init) = False \<and>
   map readyState (sockets (run (take 6 stale_close_history) init))
     = [CLOSED, CONNECTING, CONNECTING] \<and>
   map readyState (sockets (run stale_close_history init)) = [CLOSED, OPEN, OPEN] \<and>
   live_sockets (run stale_close_history init) = [1, 2] \<and>
   wsRef (run stale_close_history init) = Some 2"
  by (simp add: trace_defs history_defs live_sockets_def upt_rec)

subsection \<open>C2: the backoff delay\<close>

text \<open>
  Claim C2. The delay of the reconnect scheduled for attempt \<open>n\<close>, counted from 1, is
  \<open>min (1000 * 2 ^ (n - 1)) 30000\<close> milliseconds: 1000 for the first attempt, 16000 for
  the fifth, and the formula gives 30000 at 7. In every state the hook can reach, an
  unclean close that finds the retry counter below 5 raises the counter to \<open>m\<close>, one more
  than before, and sets a new timer, kept in \<^verbatim>\<open>retryRef\<close>, whose delay is the formula's
  value at \<open>m\<close>. And the counter counts the unclean closes in a row: starting where the
  counter is 0, with no successful open in between, the \<open>n\<close>-th unclean close, for \<open>n\<close>
  from 1 to 5, schedules the reconnect with the delay of attempt \<open>n\<close>. (The counter never
  passes 5, so the delays that are in fact scheduled are 1000, 2000, 4000, 8000 and 16000.)
\<close>

theorem backoff_delay:
  "(1 \<le> n \<longrightarrow>
      reconnect_delay n = min (1000 * 2 ^ (n - 1)) 30000 \<and>
      reconnect_delay n = (if n \<le> 5 then 1000 * 2 ^ (n - 1) else 30000)) \<and>
   reconnect_delay 1 = 1000 \<and> reconnect_delay 5 = 16000 \<and> reconnect_delay 7 = 30000 \<and>
   (closes_unclean e (run es init) \<and> retriesRef (run es init) < 5 \<and>
    m = retriesRef (step e (run es init)) \<longrightarrow>
      m = retriesRef (run es init) + 1 \<and>
      length (timers (step e (run es init))) = Suc (length (timers (run es init))) \<and>
      retryRef (step e (run es init)) = Some (length (timers (run es init))) \<and>
      active (last (timers (step e (run es init)))) \<and>
      delay (last (timers (step e (run es init)))) = min (1000 * 2 ^ (m - 1)) 30000) \<and>
   (retriesRef (run es init) = 0 \<and> quiet fs (run es init) \<and>
    closes_unclean e (run (es @ fs) init) \<and>
    unclean_count fs (run es init) = n - 1 \<and> 1 \<le> n \<and> n \<le> 5 \<longrightarrow>
      retriesRef (step e (run (es @ fs) init)) = n \<and>
      delay (last (timers (step e (run (es @ fs) init)))) = min (1000 * 2 ^ (n - 1)) 30000)"
proof -
  have a: "1 \<le> n \<longrightarrow>
      reconnect_delay n = min (1000 * 2 ^ (n - 1)) 30000 \<and>
      reconnect_delay n = (if n \<le> 5 then 1000 * 2 ^ (n - 1) else 30000)"
    using reconnect_delay_closed_form [of n] by (simp add: reconnect_delay_def)
  have b: "reconnect_delay 1 = 1000 \<and> reconnect_delay 5 = 16000 \<and> reconnect_delay 7 = 30000"
    by (simp add: reconnect_delay_def)
  have c: "closes_unclean e (run es init) \<and> retriesRef (run es init) < 5 \<and>
    m = retriesRef (step e (run es init)) \<longrightarrow>
      m = retriesRef (run es init) + 1 \<and>
      length (timers (step e (run es init))) = Suc (length (timers (run es init))) \<and>
      retryRef (step e (run es init)) = Some (length (timers (run es init))) \<and>
      active (last (timers (step e (run es init)))) \<and>
      delay (last (timers (step e (run es init)))) = min (1000 * 2 ^ (m - 1)) 30000"
    using step_unclean_retry [OF owners_signed_in_run, of e es]
    by (simp add: reconnect_delay_def)
  have d: "retriesRef (run es init) = 0 \<and> quiet fs (run es init) \<and>
    closes_unclean e (run (es @ fs) init) \<and>
    unclean_count fs (run es init) = n - 1 \<and> 1 \<le> n \<and> n \<le> 5 \<longrightarrow>
      retriesRef (step e (run (es @ fs) init)) = n \<and>
      delay (last (timers (step e (run (es @ fs) init)))) = min (1000 * 2 ^ (n - 1)) 30000"
    using delay_of_nth_close [of es fs e n] by (simp add: reconnect_delay_def)
  from a b c d show ?thesis by blast
qed

theorem backoff_delay_witness:
  "closes_unclean (OnClose 2 False) (run [Connect signed_in False, OnClose 0 False,
      TimerFires 0 False, OnClose 1 False, TimerFires 1 False] init) \<and>
   retriesRef (run [Connect signed_in False, OnClose 0 False,
      TimerFires 0 False, OnClose 1 False, TimerFires 1 False] init) = 2 \<and>
   quiet [Connect signed_in False, OnClose 0 False,
      TimerFires 0 False, OnClose 1 False, TimerFires 1 False] init \<and>
   unclean_count [Connect signed_in False, OnClose 0 False,
      TimerFires 0 False, OnClose 1 False, TimerFires 1 False] init = 2 \<and>
   retriesRef (step (OnClose 2 False) (run [Connect signed_in False, OnClose 0 False,
      TimerFires 0 False, OnClose 1 False, TimerFires 1 False] init)) = 3 \<and>
   delay (last (timers (step (OnClose 2 False) (run [Connect signed_in False, OnClose 0 False,
      TimerFires 0 False, OnClose 1 False, TimerFires 1 False] init)))) = 4000 \<and>
   reconnect_delay 3 = 4000"
  using backoff_delay [where n = 3 and e = "OnClose 2 False" and m = 3 and fs = "[]"
      and es = "[Connect signed_in False, OnClose 0 False,
      TimerFires 0 False, OnClose 1 False, TimerFires 1 False]"]
    backoff_delay [where n = 3 and e = "OnClose 2 False" and m = 3 and es = "[]"
      and fs = "[Connect signed_in False, OnClose 0 False,
      TimerFires 0 False, OnClose 1 False, TimerFires 1 False]"]
  by (simp add: trace_defs closes_unclean_def opens_def)

subsection \<open>C3: the retry ceiling\<close>

text \<open>
  Claim C3 says that the status is \<^verbatim>\<open>error\<close> after five unclean closes in a row. After
  five unclean closes in a row, with no open in between, the status is \<^verbatim>\<open>connecting\<close>, the
  counter is 5, and the fifth reconnect is scheduled, 16000 ms ahead.
\<close>

theorem five_closes_counterexample:
  "unclean_count five_unclean_closes init = 5 \<and> quiet five_unclean_closes init \<and>
   status (run five_unclean_closes init) = connecting \<and>
   retriesRef (run five_unclean_closes init) = 5 \<and>
   active_timers (run five_unclean_closes init) = [4] \<and>
   callback (timers (run five_unclean_closes init) ! 4) = RetryConnect signed_in \<and>
   delay (timers (run five_unclean_closes init) ! 4) = 16000"
  by (simp add: trace_defs closes_unclean_def opens_def active_timers_def upt_rec)

text \<open>
  Claim C3 as amended. Take a reachable state where the retry counter is 0 (the start, or
  any state just after a successful open) and a history from there in which no socket opens
  successfully. An unclean close that comes after \<open>k\<close> unclean closes of that history sets
  the status to \<^verbatim>\<open>connecting\<close> and schedules a reconnect when \<open>k < 5\<close>; when \<open>5 \<le> k\<close>, so
  from the sixth unclean close in a row on, it sets the status to \<^verbatim>\<open>error\<close> and sets no
  timer. And from any state where the counter has reached 5, no history without a
  successful open sets a timer or changes the counter, calls of \<^verbatim>\<open>connect\<close> included.
\<close>

theorem retry_ceiling:
  "(retriesRef (run es init) = 0 \<and> quiet fs (run es init) \<and>
    closes_unclean e (run (es @ fs) init) \<longrightarrow>
      (unclean_count fs (run es init) < 5 \<longrightarrow>
         status (step e (run (es @ fs) init)) = connecting \<and>
         length (timers (step e (run (es @ fs) init))) = Suc (length (timers (run (es @ fs) init))) \<and>
         active (last (timers (step e (run (es @ fs) init))))) \<and>
      (5 \<le> unclean_count fs (run es init) \<longrightarrow>
         status (step e (run (es @ fs) init)) = error \<and>
         length (timers (step e (run (es @ fs) init))) = length (timers (run (es @ fs) init)) \<and>
         retriesRef (step e (run (es @ fs) init)) = 5)) \<and>
   (5 \<le> retriesRef s \<and> quiet gs s \<longrightarrow>
      length (timers (run gs s)) = length (timers s) \<and> retriesRef (run gs s) = retriesRef s)"
proof -
  have first: "(unclean_count fs (run es init) < 5 \<longrightarrow>
         status (step e (run (es @ fs) init)) = connecting \<and>
         length (timers (step e (run (es @ fs) init))) = Suc (length (timers (run (es @ fs) init))) \<and>
         active (last (timers (step e (run (es @ fs) init))))) \<and>
      (5 \<le> unclean_count fs (run es init) \<longrightarrow>
         status (step e (run (es @ fs) init)) = error \<and>
         length (timers (step e (run (es @ fs) init))) = length (timers (run (es @ fs) init)) \<and>
         retriesRef (step e (run (es @ fs) init)) = 5)"
    if z: "retriesRef (run es init) = 0" and q: "quiet fs (run es init)"
      and c: "closes_unclean e (run (es @ fs) init)"
  proof -
    have r: "retriesRef (run (es @ fs) init) = min 5 (unclean_count fs (run es init))"
      using retries_count [OF owners_signed_in_run _ q] z by (simp add: run_append)
    show ?thesis
    proof (cases "unclean_count fs (run es init) < 5")
      case True
      with r have "retriesRef (run (es @ fs) init) < 5" by simp
      from step_unclean_retry [OF owners_signed_in_run c this] True show ?thesis by simp
    next
      case False
      with r have "5 \<le> retriesRef (run (es @ fs) init)" by simp
      from step_unclean_exhausted [OF c this] False r show ?thesis by simp
    qed
  qed
  have second: "length (timers (run gs s)) = length (timers s) \<and>
      retriesRef (run gs s) = retriesRef s" if "5 \<le> retriesRef s" and "quiet gs s"
    using that by (rule exhausted_run)
  from first second show ?thesis by blast
qed

theorem retry_ceiling_witness:
  "retriesRef (run [] init) = 0 \<and> quiet sixth_attempt (run [] init) \<and>
   unclean_count sixth_attempt (run [] init) = 5 \<and>
   closes_unclean (OnClose 5 False) (run ([] @ sixth_attempt) init) \<and>
   status (step (OnClose 5 False) (run ([] @ sixth_attempt) init)) = error \<and>
   length (timers (step (OnClose 5 False) (run ([] @ sixth_attempt) init))) = 5 \<and>
   quiet [Connect signed_in False, OnClose 6 False]
     (step (OnClose 5 False) (run ([] @ sixth_attempt) init)) \<and>
   length (timers (run [Connect signed_in False, OnClose 6 False]
     (step (OnClose 5 False) (run ([] @ sixth_attempt) init)))) = 5"
  using retry_ceiling [of "[]" sixth_attempt "OnClose 5 False"
      "step (OnClose 5 False) (run ([] @ sixth_attempt) init)"
      "[Connect signed_in False, OnClose 6 False]"]
  by (simp add: trace_defs closes_unclean_def opens_def)

subsection \<open>C4: when the status is error\<close>

text \<open>
  Claim C4 says that the status is never \<^verbatim>\<open>error\<close> while fewer than five reconnects in a
  row have failed. With the counter at 0, the status is \<^verbatim>\<open>error\<close> after a \<^verbatim>\<open>connect\<close> in which
  \<^verbatim>\<open>new WebSocket\<close> throws (and no reconnect is scheduled), and after the error event of a
  socket.
\<close>

theorem early_error_counterexample:
  "retriesRef (run [Connect signed_in True] init) = 0 \<and>
   status (run [Connect signed_in True] init) = error \<and>
   active_timers (run [Connect signed_in True] init) = [] \<and>
   retriesRef (run [Connect signed_in False, OnError 0] init) = 0 \<and>
   status (run [Connect signed_in False, OnError 0] init) = error"
  by (simp add: trace_defs active_timers_def)

text \<open>
  Claim C4 as amended. In every state the hook can reach, an unclean close that finds the
  retry counter below 5 does not set the status to \<^verbatim>\<open>error\<close>: it sets it to \<^verbatim>\<open>connecting\<close>
  and schedules a reconnect. The status is set to \<^verbatim>\<open>error\<close>, whatever the counter, by the
  error event of a socket and by a \<^verbatim>\<open>connect\<close> in which \<^verbatim>\<open>new WebSocket\<close> throws (which sets
  no timer). These, and an unclean close that finds the counter at 5, are the only events
  that turn a status that is not \<^verbatim>\<open>error\<close> into \<^verbatim>\<open>error\<close>.
\<close>

theorem error_status:
  "(closes_unclean e (run es init) \<and> retriesRef (run es init) < 5 \<longrightarrow>
      status (step e (run es init)) = connecting \<and>
      length (timers (step e (run es init))) = Suc (length (timers (run es init))) \<and>
      active (last (timers (step e (run es init))))) \<and>
   (lookup_ws s w = Some k \<and> readyState k \<noteq> CLOSED \<longrightarrow>
      status (step (OnError w) s) = error) \<and>
   (isAuthenticated a \<and> has_userId a \<and> \<not> isConnectingRef s \<and>
    readyState_of s (wsRef s) \<noteq> Some OPEN \<longrightarrow>
      status (step (Connect a True) s) = error \<and>
      length (timers (step (Connect a True) s)) = length (timers s)) \<and>
   (status (step e (run es init)) = error \<and> status (run es init) \<noteq> error \<longrightarrow>
      (\<exists>w. e = OnError w) \<or>
      (closes_unclean e (run es init) \<and> retriesRef (run es init) = 5) \<or>
      throwing e)"
proof -
  have a: "closes_unclean e (run es init) \<and> retriesRef (run es init) < 5 \<longrightarrow>
      status (step e (run es init)) = connecting \<and>
      length (timers (step e (run es init))) = Suc (length (timers (run es init))) \<and>
      active (last (timers (step e (run es init))))"
    using step_unclean_retry [OF owners_signed_in_run, of e es] by simp
  have b: "lookup_ws s w = Some k \<and> readyState k \<noteq> CLOSED \<longrightarrow>
      status (step (OnError w) s) = error"
    by (simp add: onerror_def)
  have c: "isAuthenticated a \<and> has_userId a \<and> \<not> isConnectingRef s \<and>
    readyState_of s (wsRef s) \<noteq> Some OPEN \<longrightarrow>
      status (step (Connect a True) s) = error \<and>
      length (timers (step (Connect a True) s)) = length (timers s)"
    by (simp add: connect_def Let_def console_log_def console_error_def)
  have d: "status (step e (run es init)) = error \<and> status (run es init) \<noteq> error \<longrightarrow>
      (\<exists>w. e = OnError w) \<or>
      (closes_unclean e (run es init) \<and> retriesRef (run es init) = 5) \<or>
      throwing e"
    using error_sources [OF owners_signed_in_run, of e es] retries_le_5_run [of es]
    by auto
  from a b c d show ?thesis by blast
qed

theorem error_status_witness:
  "closes_unclean (OnClose 0 False) (run [Connect signed_in False] init) \<and>
   retriesRef (run [Connect signed_in False] init) = 0 \<and>
   status (step (OnClose 0 False) (run [Connect signed_in False] init)) = connecting \<and>
   lookup_ws (run [Connect signed_in False] init) 0
     = Some \<lparr>readyState = CONNECTING, owner = signed_in, sent = []\<rparr> \<and>
   status (step (OnError 0) (run [Connect signed_in False] init)) = error \<and>
   status (step (Connect signed_in True) init) = error \<and>
   status (run sixth_attempt init) = connecting \<and>
   retriesRef (run sixth_attempt init) = 5 \<and>
   status (step (OnClose 5 False) (run sixth_attempt init)) = error"
  using error_status [of "OnClose 0 False" "[Connect signed_in False]"
      "run [Connect signed_in False] init" 0
      "\<lparr>readyState = CONNECTING, owner = signed_in, sent = []\<rparr>" signed_in]
    error_status [of "OnClose 5 False" sixth_attempt init 0
      "\<lparr>readyState = CONNECTING, owner = signed_in, sent = []\<rparr>" signed_in]
  by (simp add: trace_defs closes_unclean_def)

subsection \<open>C5: the unread count\<close>

text \<open>
  Claim C5. The unread count is a natural number. An event changes it in two cases only:
  a message event that brings a frame whose \<^verbatim>\<open>type\<close> is \<^verbatim>\<open>notification\<close> to an open socket
  adds exactly 1, and \<^verbatim>\<open>resetUnread\<close> sets it to 0. Every other event (cleanup, close,
  error, open, connect and reconnect, timers, pong and unrecognized frames, frames that do
  not parse, send) leaves it as it is. \<^verbatim>\<open>resetUnread\<close> can be called in every state, and
  calling it twice gives the state that calling it once gives, but for the line it writes to
  the console.
\<close>

theorem unread_changes:
  "unread (step e s) =
     (if delivers_notification e s then unread s + 1
      else if e = ResetUnread then 0 else unread s) \<and>
   unread (resetUnread s) = 0 \<and>
   (resetUnread (resetUnread s))\<lparr>console := c\<rparr> = (resetUnread s)\<lparr>console := c\<rparr>"
proof -
  have "unread (step e s) =
     (if delivers_notification e s then unread s + 1
      else if e = ResetUnread then 0 else unread s)"
    by (cases e)
       (auto simp add: delivers_notification_def unread_onmessage unread_send auth_effect_def
          handleVisibilityChange_def resetUnread_def onerror_def browser_defs
          split: JSON_parse.splits option.splits)
  then show ?thesis by (simp add: resetUnread_def console_log_def)
qed

theorem unread_changes_witness:
  "delivers_notification (OnMessage 0 frame_n1) (run [Connect signed_in False, OnOpen 0] init) \<and>
   unread (run [Connect signed_in False, OnOpen 0] init) = 0 \<and>
   unread (step (OnMessage 0 frame_n1) (run [Connect signed_in False, OnOpen 0] init)) = 1 \<and>
   unread (step Cleanup (step (OnMessage 0 frame_n1)
     (run [Connect signed_in False, OnOpen 0] init))) = 1"
  using unread_changes [of "OnMessage 0 frame_n1" "run [Connect signed_in False, OnOpen 0] init"]
  by (simp add: trace_defs delivers_notification_def)

subsection \<open>C6: frames with the same id\<close>

text \<open>
  Claim C6 says that a second notification frame with the id of an earlier one is not
  counted. The handler counts it: after the frame of Scenario B has come twice to an open
  socket, the unread count is 2.
\<close>

theorem second_frame_counts_counterexample:
  "unread (run [Connect signed_in False, OnOpen 0, OnMessage 0 frame_n1] init) = 1 \<and>
   unread (run [Connect signed_in False, OnOpen 0, OnMessage 0 frame_n1, OnMessage 0 frame_n1]
     init) = 2"
  by (simp add: trace_defs)

text \<open>
  Claim C6 as amended. The unread count is not deduplicated: \<open>n\<close> notification frames
  received on an open socket add \<open>n\<close> to the unread count, whatever their ids, also when
  all \<open>n\<close> are the same frame. The id of a frame is used for one thing: when the desktop
  alert is raised (permission granted, \<^verbatim>\<open>data\<close> truthy) and the id is truthy, it is the
  alert's \<^verbatim>\<open>tag\<close>.
\<close>

theorem notifications_not_deduplicated:
  "(readyState_of s (Some w) = Some OPEN \<and> parsed evt = Returns msg \<and>
    js_prop msg ''type'' = Some (JStr ''notification'') \<longrightarrow>
      unread (run (replicate n (OnMessage w evt)) s) = unread s + n) \<and>
   (readyState_of s (Some w) = Some OPEN \<and> parsed evt = Returns msg \<and>
    js_prop msg ''type'' = Some (JStr ''notification'') \<and>
    permission evt = granted \<and> \<not> notification_throws evt \<and>
    js_prop msg ''data'' = Some d \<and> truthy (Some d) \<and>
    js_prop d ''id'' = Some i \<and> truthy (Some i) \<longrightarrow>
      length (alerts (step (OnMessage w evt) s)) = Suc (length (alerts s)) \<and>
      tag (last (alerts (step (OnMessage w evt) s))) = Id i)"
  using run_replicate_notification [of evt msg s w n] alert_of_notification [of evt msg d i s]
  by simp

theorem notifications_not_deduplicated_witness:
  "readyState_of (run [Connect signed_in False, OnOpen 0] init) (Some 0) = Some OPEN \<and>
   unread (run (replicate 2 (OnMessage 0 frame_n1)) (run [Connect signed_in False, OnOpen 0] init))
     = 2 \<and>
   tag (last (alerts (step (OnMessage 0 frame_n1) (run [Connect signed_in False, OnOpen 0] init))))
     = Id (JStr ''n1'')"
  using notifications_not_deduplicated [of "run [Connect signed_in False, OnOpen 0] init" 0
      frame_n1 "JObj [(''type'', JStr ''notification''),
                      (''data'', JObj [(''id'', JStr ''n1''), (''title'', JStr ''X'')])]" 2
      "JObj [(''id'', JStr ''n1''), (''title'', JStr ''X'')]" "JStr ''n1''"]
  by (simp add: trace_defs)

subsection \<open>C7: timers after cleanup\<close>

text \<open>
  Claim C7, at the histories \<open>aborted_connect_history\<close> and \<open>orphaned_socket_history\<close>.
  In the first, \<^verbatim>\<open>cleanup\<close> has run for the logout and no timer is active; then the close event
  of the aborted socket 0 arrives, not clean, and its handler schedules a reconnect (line
  170); the timer fires and \<^verbatim>\<open>connect\<close>, with the values of the render that created
  socket 0, opens socket 1 for a user who has logged out. In the second, socket 1 is no
  longer held by \<^verbatim>\<open>wsRef\<close> when \<^verbatim>\<open>cleanup\<close> runs for the logout, so it is not closed; it
  opens afterwards, its \<^verbatim>\<open>onopen\<close> starts a heartbeat, and the heartbeat fires and sends
  a ping.
\<close>

theorem retry_fires_after_cleanup:
  "active_timers (run (take 3 aborted_connect_history) init) = [] \<and>
   status (run (take 3 aborted_connect_history) init) = disconnected \<and>
   active_timers (run aborted_connect_history init) = [0] \<and>
   callback (timers (run aborted_connect_history init) ! 0) = RetryConnect signed_in \<and>
   status (run aborted_connect_history init) = connecting \<and>
   map readyState (sockets (run (aborted_connect_history @ [TimerFires 0 False]) init))
     = [CLOSED, CONNECTING] \<and>
   wsRef (run (aborted_connect_history @ [TimerFires 0 False]) init) = Some 1 \<and>
   active_timers (run (butlast orphaned_socket_history) init) = [] \<and>
   active_timers (run orphaned_socket_history init) = [1] \<and>
   callback (timers (run orphaned_socket_history init) ! 1) = HeartbeatTick 1 \<and>
   status (run orphaned_socket_history init) = connected \<and>
   sent (sockets (run (orphaned_socket_history @ [TimerFires 1 False]) init) ! 1) = [Ping]"
  by (simp add: trace_defs history_defs active_timers_def upt_rec)

subsection \<open>C8: frames that do not parse\<close>

text \<open>
  Claim C8. When \<^verbatim>\<open>JSON.parse\<close> throws on a frame that came to an open socket, the
  exception is caught inside the handler: the handler writes the failure to the console and
  returns. Nothing else changes: status, unread count, the refs, the sockets (the socket
  stays open), the timers and the alerts are as before.
\<close>

theorem parse_failure_dropped:
  "parsed evt = Throws \<and> readyState_of s (Some w) = Some OPEN \<longrightarrow>
     onmessage_try evt (console_log Raw_message s) =
       (console_log Raw_message s, Some SyntaxError) \<and>
     step (OnMessage w evt) s =
       s\<lparr>console := console s @ [Log Raw_message,
            Err Failed_to_parse, Err Raw_data]\<rparr> \<and>
     readyState_of (step (OnMessage w evt) s) (Some w) = Some OPEN"
  by (simp add: onmessage_def onmessage_try_def console_log_def console_error_def
      readyState_of_def lookup_ws_def)

theorem parse_failure_dropped_witness:
  "readyState_of (run [Connect signed_in False, OnOpen 0] init) (Some 0) = Some OPEN \<and>
   parsed frame_garbled = Throws \<and>
   status (step (OnMessage 0 frame_garbled) (run [Connect signed_in False, OnOpen 0] init))
     = connected \<and>
   unread (step (OnMessage 0 frame_garbled) (run [Connect signed_in False, OnOpen 0] init)) = 0 \<and>
   readyState_of (step (OnMessage 0 frame_garbled) (run [Connect signed_in False, OnOpen 0] init))
     (Some 0) = Some OPEN"
  using parse_failure_dropped [of frame_garbled "run [Connect signed_in False, OnOpen 0] init" 0]
  by (simp add: trace_defs)

subsection \<open>C9: the retry counter\<close>

text \<open>
  Claim C9 says that the retry counter is incremented on every unclean close. It is not when
  it has reached 5: after five unclean closes in a row and the fifth reconnect, the unclean
  close of socket 5 finds the counter at 5 and leaves it at 5.
\<close>

theorem close_at_ceiling_counterexample:
  "closes_unclean (OnClose 5 False) (run sixth_attempt init) \<and>
   retriesRef (run sixth_attempt init) = 5 \<and>
   retriesRef (step (OnClose 5 False) (run sixth_attempt init)) = 5"
  by (simp add: trace_defs closes_unclean_def)

text \<open>
  Claim C9 as amended. In every state the hook can reach, an event changes the retry counter
  in two cases only: the successful open of a socket sets it to 0, and an unclean close that
  finds it below 5 adds 1. An unclean close that finds it at 5 leaves it there, so it never
  passes 5. No other event changes it; in particular \<^verbatim>\<open>connect\<close> does not, in any state.
\<close>

theorem retry_counter_changes:
  "retriesRef (step e (run es init)) =
     (if opens e (run es init) then 0
      else if closes_unclean e (run es init) \<and> retriesRef (run es init) < 5
           then retriesRef (run es init) + 1
      else retriesRef (run es init)) \<and>
   retriesRef (run es init) \<le> 5 \<and>
   retriesRef (step (Connect a t) s) = retriesRef s"
  using retries_step [OF owners_signed_in_run, of e es] retries_le_5_run [of es]
  by simp

theorem retry_counter_changes_witness:
  "opens (OnOpen 1) (run [Connect signed_in False, OnClose 0 False, TimerFires 0 False] init) \<and>
   retriesRef (run [Connect signed_in False, OnClose 0 False, TimerFires 0 False] init) = 1 \<and>
   retriesRef (step (OnOpen 1)
     (run [Connect signed_in False, OnClose 0 False, TimerFires 0 False] init)) = 0"
  using retry_counter_changes [of "OnOpen 1"
      "[Connect signed_in False, OnClose 0 False, TimerFires 0 False]"]
  by (simp add: trace_defs opens_def)

subsection \<open>C10: what cleanup leaves behind\<close>

text \<open>
  Claim C10. Whatever the state before, \<^verbatim>\<open>error\<close> included, after \<^verbatim>\<open>cleanup\<close> the status is
  \<^verbatim>\<open>disconnected\<close>, the socket ref and both timer refs are null, and the connecting flag
  is false.
\<close>

theorem cleanup_postcondition:
  "status (cleanup s) = disconnected \<and> wsRef (cleanup s) = None \<and>
   heartbeatRef (cleanup s) = None \<and> retryRef (cleanup s) = None \<and>
   \<not> isConnectingRef (cleanup s)"
  by (simp add: cleanup_def browser_defs Let_def split: option.splits)

theorem cleanup_postcondition_witness:
  "status (run [Connect signed_in False, OnError 0] init) = error \<and>
   status (cleanup (run [Connect signed_in False, OnError 0] init)) = disconnected \<and>
   wsRef (cleanup (run [Connect signed_in False, OnError 0] init)) = None \<and>
   heartbeatRef (cleanup (run [Connect signed_in False, OnError 0] init)) = None \<and>
   retryRef (cleanup (run [Connect signed_in False, OnError 0] init)) = None \<and>
   \<not> isConnectingRef (cleanup (run [Connect signed_in False, OnError 0] init))"
  using cleanup_postcondition [of "run [Connect signed_in False, OnError 0] init"]
  by (simp add: trace_defs)

subsection \<open>Calling connect twice\<close>

text \<open>
  The part of claim C1 that holds in every state: \<^verbatim>\<open>connect\<close> for an authenticated user
  only writes a line to the console when the connecting flag is set or the socket in
  \<^verbatim>\<open>wsRef\<close> is open; and a second \<^verbatim>\<open>connect\<close> right after a first one creates no socket
  and leaves \<^verbatim>\<open>wsRef\<close> as it is, so the two calls create at most one socket.
\<close>

theorem connect_idempotent:
  "((isConnectingRef s \<or> readyState_of s (wsRef s) = Some OPEN) \<and>
    isAuthenticated a \<and> has_userId a \<longrightarrow>
      connect a t s =
        console_log (if isConnectingRef s then Already_connecting else Already_connected) s) \<and>
   sockets (connect a t (connect a False s)) = sockets (connect a False s) \<and>
   wsRef (connect a t (connect a False s)) = wsRef (connect a False s) \<and>
   length (sockets (connect a False s)) \<le> Suc (length (sockets s))"
  using connect_early [of s a t] connect_twice [of a t s] connect_one_socket [of a False s]
  by blast

theorem connect_idempotent_witness:
  "isConnectingRef (connect signed_in False init) \<and>
   sockets (connect signed_in False (connect signed_in False init))
     = [\<lparr>readyState = CONNECTING, owner = signed_in, sent = []\<rparr>] \<and>
   connect signed_in False (connect signed_in False init)
     = console_log Already_connecting (connect signed_in False init)"
  using connect_idempotent [of "connect signed_in False init" signed_in False]
  by (simp add: trace_defs)

end
